theory Spec2Isabelle
  imports Main
begin

section \<open>Navigation and form-host synchronisation (App.jsx, CustomNavBar.jsx, CardGrid.jsx)\<close>

text \<open>
  The front end keeps three React state cells that matter for navigation:
  \<^item> \<open>formOpen\<close> and \<open>forceTitle\<close>, owned by \<open>App\<close>;
  \<^item> \<open>selected\<close>, owned by \<open>GenerateCardGrid\<close>.
  \<open>App\<close> passes \<open>forceTitle\<close> down as the prop \<open>forcedFormTitle\<close> and its own setter
  \<open>setFormOpen\<close> as the prop \<open>onFormOpenChange\<close>.

  An event handler runs to completion, React re-renders, and an effect declared with the
  dependency array \<open>[forcedFormTitle]\<close> runs after that render exactly when the value of
  \<open>forcedFormTitle\<close> differs from the one of the previous render (and once after mounting).
  The model passes the three cells explicitly and adds a log of the calls that
  \<open>GenerateCardGrid\<close> makes to \<open>onFormOpenChange\<close>, oldest first.
\<close>

subsection \<open>Menu cards\<close>

text \<open>
  An entry of \<open>menuCards\<close>. The \<open>icon\<close> field is a JSX element that no handler reads; it is
  left out. The field \<open>id\<close> is named \<open>cid\<close>. Characters outside ASCII are given by their
  code unit.
\<close>

record card =
  cid :: nat
  title :: string
  description :: string

definition card_DOWNLOAD :: card where
  "card_DOWNLOAD = \<lparr>cid = 1, title = ''DOWNLOAD'',
     description = ''Baixe um PDF existente pelo UUID.''\<rparr>"

definition card_UPLOAD :: card where
  "card_UPLOAD = \<lparr>cid = 2, title = ''UPLOAD'',
     description = ''Envie um PDF e gere UUID.''\<rparr>"

definition card_MERGE :: card where
  "card_MERGE = \<lparr>cid = 3, title = ''MERGE'',
     description = ''Mescle dois PDFs em um '' @ CHR 0xFA # ''nico arquivo.''\<rparr>"

definition card_SPLIT :: card where
  "card_SPLIT = \<lparr>cid = 4, title = ''SPLIT'',
     description = ''Extraia p'' @ CHR 0xE1 # ''ginas espec'' @ CHR 0xED # ''ficas de um PDF.''\<rparr>"

definition menuCards :: "card list" where
  "menuCards = [card_DOWNLOAD, card_UPLOAD, card_MERGE, card_SPLIT]"

text \<open>The keys that \<open>CustomNavBar\<close> passes to \<open>onNavigate\<close>.\<close>

definition ViewKey :: "string set" where
  "ViewKey = {''HOME'', ''UPLOAD'', ''DOWNLOAD'', ''MERGE'', ''SPLIT''}"

subsection \<open>State\<close>

record ui =
  formOpen :: bool
  forceTitle :: "string option"
  selected :: "card option"
  emitted :: "bool list"

text \<open>\<open>useState(false)\<close>, \<open>useState(null)\<close>, \<open>useState(null)\<close>; nothing emitted yet.\<close>

definition initial :: ui where
  "initial = \<lparr>formOpen = False, forceTitle = None, selected = None, emitted = []\<rparr>"

text \<open>JavaScript truthiness of a value that is \<open>null\<close> or a string: only \<open>null\<close> and the
  empty string are falsy.\<close>

definition truthy :: "string option \<Rightarrow> bool" where
  "truthy v = (case v of None \<Rightarrow> False | Some k \<Rightarrow> k \<noteq> [])"

text \<open>\<open>onFormOpenChange?.(b)\<close>: the prop is \<open>setFormOpen\<close>; the call is logged.\<close>

definition onFormOpenChange :: "bool \<Rightarrow> ui \<Rightarrow> ui" where
  "onFormOpenChange b s = s\<lparr>formOpen := b, emitted := emitted s @ [b]\<rparr>"

subsection \<open>Handlers\<close>

text \<open>\<open>App.handleNavigate\<close>.\<close>

definition handleNavigate :: "string \<Rightarrow> ui \<Rightarrow> ui" where
  "handleNavigate key s =
     (if key = ''HOME'' then s\<lparr>forceTitle := None, formOpen := False\<rparr>
      else s\<lparr>forceTitle := Some key\<rparr>)"

text \<open>The body of the effect of \<open>GenerateCardGrid\<close> (\<open>sync with external nav\<close>).\<close>

definition useEffect :: "ui \<Rightarrow> ui" where
  "useEffect s =
     (if truthy (forceTitle s) then
        (case find (\<lambda>c. Some (title c) = forceTitle s) menuCards of
           Some c \<Rightarrow> onFormOpenChange True (s\<lparr>selected := Some c\<rparr>)
         | None \<Rightarrow> s)
      else
        (case selected s of
           Some c \<Rightarrow> onFormOpenChange False (s\<lparr>selected := None\<rparr>)
         | None \<Rightarrow> s))"

text \<open>\<open>GenerateCardGrid.openCard\<close> and \<open>GenerateCardGrid.back\<close> (named \<open>back_fn\<close> here).\<close>

definition openCard :: "card \<Rightarrow> ui \<Rightarrow> ui" where
  "openCard c s = onFormOpenChange True (s\<lparr>selected := Some c\<rparr>)"

definition back_fn :: "ui \<Rightarrow> ui" where
  "back_fn s = onFormOpenChange False (s\<lparr>selected := None\<rparr>)"

subsection \<open>Events\<close>

text \<open>
  A render after which the effect runs only if the dependency \<open>forcedFormTitle\<close> changed
  since the previous render; \<open>prev\<close> is the state of the previous render.
\<close>

definition rerender :: "ui \<Rightarrow> ui \<Rightarrow> ui" where
  "rerender prev s = (if forceTitle s = forceTitle prev then s else useEffect s)"

text \<open>A click in the navigation bar: \<open>go(key)\<close>, then the render and its effect.\<close>

definition select :: "string \<Rightarrow> ui \<Rightarrow> ui" where
  "select key s = rerender s (handleNavigate key s)"

text \<open>A click on a card of the grid, and a click on the back button of an open form:
  neither changes \<open>forcedFormTitle\<close>, so the effect does not run.\<close>

definition openDirect :: "card \<Rightarrow> ui \<Rightarrow> ui" where
  "openDirect c s = rerender s (openCard c s)"

definition backClick :: "ui \<Rightarrow> ui" where
  "backClick s = rerender s (back_fn s)"

text \<open>Mounting: the first render, after which the effect runs once.\<close>

definition mounted_ui :: ui where
  "mounted_ui = useEffect initial"

datatype event = Select string | OpenDirect card | Back

fun fire :: "event \<Rightarrow> ui \<Rightarrow> ui" where
  "fire (Select k) s = select k s"
| "fire (OpenDirect c) s = openDirect c s"
| "fire Back s = backClick s"

text \<open>
  What the rendered page offers: the navigation bar is always there and sends keys of
  \<open>ViewKey\<close>; the grid of cards is rendered only while \<open>selected\<close> is \<open>null\<close>; the back
  button only inside an open form.
\<close>

fun offered :: "event \<Rightarrow> ui \<Rightarrow> bool" where
  "offered (Select k) s = (k \<in> ViewKey)"
| "offered (OpenDirect c) s = (selected s = None \<and> c \<in> set menuCards)"
| "offered Back s = (selected s \<noteq> None)"

text \<open>Running a list of events, oldest first; \<open>None\<close> when an event is not offered.\<close>

fun run :: "event list \<Rightarrow> ui \<Rightarrow> ui option" where
  "run [] s = Some s"
| "run (e # es) s = (if offered e s then run es (fire e s) else None)"

fun selects :: "string list \<Rightarrow> ui \<Rightarrow> ui" where
  "selects [] s = s"
| "selects (k # ks) s = selects ks (select k s)"

text \<open>The card a key stands for.\<close>

definition resolve :: "string \<Rightarrow> card option" where
  "resolve k = find (\<lambda>c. title c = k) menuCards"


section \<open>The four forms (CardGrid.jsx)\<close>

text \<open>
  Each form component owns its \<open>useState\<close> cells and one asynchronous submit handler. The
  handler is split at its only \<open>await\<close>: the first half runs inside the submit event and
  returns the request it sends, if any; the second half (\<open>try\<close> continuation, \<open>catch\<close>,
  \<open>finally\<close>) runs when the promise settles. The second half only writes state, so it
  does not depend on the render whose closure it was created in.
\<close>

text \<open>A \<open>File\<close> object picked by the user, known by its name.\<close>

datatype file_obj = File string

text \<open>The calls on the axios instance \<open>api\<close>, with the fields appended to the form data.\<close>

datatype request =
    Post_upload file_obj
  | Post_merge file_obj file_obj
  | Post_extract file_obj string
  | Get_download string

text \<open>
  How the awaited promise settles: fulfilled, carrying \<open>data.uuid\<close> (for the download, a
  blob that no state cell receives), or rejected, carrying \<open>e.response?.data?.detail\<close>
  when there is one and it is a string. A missing \<open>data.uuid\<close> is displayed like the
  empty string and is modelled by it.
\<close>

datatype response = Fulfilled string | Rejected "string option"

text \<open>\<open>detail || fallback\<close>.\<close>

definition or_default :: "string option \<Rightarrow> string \<Rightarrow> string" where
  "or_default d fallback = (if truthy d then (case d of Some x \<Rightarrow> x | None \<Rightarrow> fallback) else fallback)"

subsection \<open>UploadForm\<close>

text \<open>The cell \<open>file\<close> is named \<open>file_u\<close>.\<close>

record UploadForm =
  file_u :: "file_obj option"
  uuid :: string
  err :: string
  loading :: bool

definition UploadForm_init :: UploadForm where
  "UploadForm_init = \<lparr>file_u = None, uuid = [], err = [], loading = False\<rparr>"

definition handleSubmit :: "UploadForm \<Rightarrow> UploadForm \<times> request option" where
  "handleSubmit s =
     (let s1 = s\<lparr>err := [], uuid := []\<rparr> in
      case file_u s1 of
        None \<Rightarrow> (s1\<lparr>err := ''Selecione um PDF''\<rparr>, None)
      | Some f \<Rightarrow> (s1\<lparr>loading := True\<rparr>, Some (Post_upload f)))"

definition handleSubmit_settled :: "response \<Rightarrow> UploadForm \<Rightarrow> UploadForm" where
  "handleSubmit_settled r s =
     (case r of
        Fulfilled u \<Rightarrow> s\<lparr>uuid := u\<rparr>
      | Rejected d \<Rightarrow> s\<lparr>err := or_default d ''Erro no upload''\<rparr>)\<lparr>loading := False\<rparr>"

text \<open>\<open>onChange={e=>setFile(e.target.files[0])}\<close>; \<open>None\<close> when the picker is left empty.\<close>

definition setFile :: "file_obj option \<Rightarrow> UploadForm \<Rightarrow> UploadForm" where
  "setFile f s = s\<lparr>file_u := f\<rparr>"

text \<open>The two alerts: \<open>{uuid && ...}\<close> and \<open>{err && ...}\<close>.\<close>

definition upload_shows_result :: "UploadForm \<Rightarrow> bool" where
  "upload_shows_result s = (uuid s \<noteq> [])"

definition upload_shows_error :: "UploadForm \<Rightarrow> bool" where
  "upload_shows_error s = (err s \<noteq> [])"

subsection \<open>MergeForm\<close>

record MergeForm =
  file1 :: "file_obj option"
  file2 :: "file_obj option"
  uuid_m :: string
  err_m :: string
  loading_m :: bool

definition MergeForm_init :: MergeForm where
  "MergeForm_init = \<lparr>file1 = None, file2 = None, uuid_m = [], err_m = [], loading_m = False\<rparr>"

definition submit_m :: "MergeForm \<Rightarrow> MergeForm \<times> request option" where
  "submit_m s =
     (let s1 = s\<lparr>err_m := [], uuid_m := []\<rparr> in
      case (file1 s1, file2 s1) of
        (Some f1, Some f2) \<Rightarrow> (s1\<lparr>loading_m := True\<rparr>, Some (Post_merge f1 f2))
      | _ \<Rightarrow> (s1\<lparr>err_m := ''Selecione os dois PDFs''\<rparr>, None))"

definition submit_m_settled :: "response \<Rightarrow> MergeForm \<Rightarrow> MergeForm" where
  "submit_m_settled r s =
     (case r of
        Fulfilled u \<Rightarrow> s\<lparr>uuid_m := u\<rparr>
      | Rejected d \<Rightarrow> s\<lparr>err_m := or_default d ''Erro ao mesclar''\<rparr>)\<lparr>loading_m := False\<rparr>"

datatype merge_input = SetFile1 "file_obj option" | SetFile2 "file_obj option"

fun change_m :: "merge_input \<Rightarrow> MergeForm \<Rightarrow> MergeForm" where
  "change_m (SetFile1 f) s = s\<lparr>file1 := f\<rparr>"
| "change_m (SetFile2 f) s = s\<lparr>file2 := f\<rparr>"

definition merge_shows_result :: "MergeForm \<Rightarrow> bool" where
  "merge_shows_result s = (uuid_m s \<noteq> [])"

definition merge_shows_error :: "MergeForm \<Rightarrow> bool" where
  "merge_shows_error s = (err_m s \<noteq> [])"

subsection \<open>SplitForm\<close>

record SplitForm =
  file_s :: "file_obj option"
  range_s :: string
  uuid_s :: string
  err_s :: string
  loading_s :: bool

definition SplitForm_init :: SplitForm where
  "SplitForm_init = \<lparr>file_s = None, range_s = [], uuid_s = [], err_s = [], loading_s = False\<rparr>"

definition submit_s :: "SplitForm \<Rightarrow> SplitForm \<times> request option" where
  "submit_s s =
     (let s1 = s\<lparr>err_s := [], uuid_s := []\<rparr> in
      case file_s s1 of
        None \<Rightarrow> (s1\<lparr>err_s := ''Arquivo e intervalo obrigat'' @ CHR 0xF3 # ''rios''\<rparr>, None)
      | Some f \<Rightarrow>
          (if range_s s1 = [] then
             (s1\<lparr>err_s := ''Arquivo e intervalo obrigat'' @ CHR 0xF3 # ''rios''\<rparr>, None)
           else (s1\<lparr>loading_s := True\<rparr>, Some (Post_extract f (range_s s1)))))"

definition submit_s_settled :: "response \<Rightarrow> SplitForm \<Rightarrow> SplitForm" where
  "submit_s_settled r s =
     (case r of
        Fulfilled u \<Rightarrow> s\<lparr>uuid_s := u\<rparr>
      | Rejected d \<Rightarrow> s\<lparr>err_s := or_default d ''Erro ao extrair''\<rparr>)\<lparr>loading_s := False\<rparr>"

datatype split_input = SetFile "file_obj option" | SetRange string

fun change_s :: "split_input \<Rightarrow> SplitForm \<Rightarrow> SplitForm" where
  "change_s (SetFile f) s = s\<lparr>file_s := f\<rparr>"
| "change_s (SetRange r) s = s\<lparr>range_s := r\<rparr>"

definition split_shows_result :: "SplitForm \<Rightarrow> bool" where
  "split_shows_result s = (uuid_s s \<noteq> [])"

definition split_shows_error :: "SplitForm \<Rightarrow> bool" where
  "split_shows_error s = (err_s s \<noteq> [])"

subsection \<open>DownloadForm\<close>

text \<open>Here \<open>uuid\<close> is the text input. The form renders an error alert and no result alert;
  on success the file is handed to the browser through a temporary link.\<close>

record DownloadForm =
  uuid_d :: string
  err_d :: string
  loading_d :: bool

definition DownloadForm_init :: DownloadForm where
  "DownloadForm_init = \<lparr>uuid_d = [], err_d = [], loading_d = False\<rparr>"

definition submit_d :: "DownloadForm \<Rightarrow> DownloadForm \<times> request option" where
  "submit_d s =
     (let s1 = s\<lparr>err_d := []\<rparr> in
      if uuid_d s1 = [] then (s1\<lparr>err_d := ''Informe o UUID''\<rparr>, None)
      else (s1\<lparr>loading_d := True\<rparr>, Some (Get_download (uuid_d s1))))"

definition submit_d_settled :: "response \<Rightarrow> DownloadForm \<Rightarrow> DownloadForm" where
  "submit_d_settled r s =
     (case r of
        Fulfilled u \<Rightarrow> s
      | Rejected d \<Rightarrow> s\<lparr>err_d := or_default d (''UUID n'' @ CHR 0xE3 # ''o encontrado'')\<rparr>)
     \<lparr>loading_d := False\<rparr>"

definition setUuid :: "string \<Rightarrow> DownloadForm \<Rightarrow> DownloadForm" where
  "setUuid u s = s\<lparr>uuid_d := u\<rparr>"

definition download_shows_result :: "DownloadForm \<Rightarrow> bool" where
  "download_shows_result s = False"

definition download_shows_error :: "DownloadForm \<Rightarrow> bool" where
  "download_shows_error s = (err_d s \<noteq> [])"

subsection \<open>A mounted form and its events\<close>

text \<open>
  A mounted form is its state together with the requests it has sent that have not settled
  yet. Its events are a change of an input, a submit event, and the settling of a pending
  request. The submit button is rendered with \<open>disabled={loading}\<close>, and a browser
  delivers no submit event through a disabled submit button, so the handler is reached
  only while \<open>loading\<close> is false. The handlers themselves do not read \<open>loading\<close>.
\<close>

datatype 'i form_event = Change 'i | Submit | Settle response

fun form_step ::
  "('s \<Rightarrow> bool) \<Rightarrow> ('s \<Rightarrow> 's \<times> request option) \<Rightarrow> (response \<Rightarrow> 's \<Rightarrow> 's) \<Rightarrow> ('i \<Rightarrow> 's \<Rightarrow> 's)
     \<Rightarrow> 's \<times> request list \<Rightarrow> 'i form_event \<Rightarrow> 's \<times> request list" where
  "form_step disabled start settled change (s, q) (Change i) = (change i s, q)"
| "form_step disabled start settled change (s, q) Submit =
     (if disabled s then (s, q)
      else (fst (start s), q @ (case snd (start s) of None \<Rightarrow> [] | Some r \<Rightarrow> [r])))"
| "form_step disabled start settled change (s, q) (Settle r) =
     (case q of [] \<Rightarrow> (s, q) | x # q' \<Rightarrow> (settled r s, q'))"

definition upload_step ::
  "UploadForm \<times> request list \<Rightarrow> (file_obj option) form_event \<Rightarrow> UploadForm \<times> request list" where
  "upload_step = form_step loading handleSubmit handleSubmit_settled setFile"

definition merge_step ::
  "MergeForm \<times> request list \<Rightarrow> merge_input form_event \<Rightarrow> MergeForm \<times> request list" where
  "merge_step = form_step loading_m submit_m submit_m_settled change_m"

definition split_step ::
  "SplitForm \<times> request list \<Rightarrow> split_input form_event \<Rightarrow> SplitForm \<times> request list" where
  "split_step = form_step loading_s submit_s submit_s_settled change_s"

definition download_step ::
  "DownloadForm \<times> request list \<Rightarrow> string form_event \<Rightarrow> DownloadForm \<times> request list" where
  "download_step = form_step loading_d submit_d submit_d_settled setUuid"

text \<open>A freshly mounted form after a list of events, oldest first.\<close>

definition upload_run :: "(file_obj option) form_event list \<Rightarrow> UploadForm \<times> request list" where
  "upload_run evs = foldl upload_step (UploadForm_init, []) evs"

definition merge_run :: "merge_input form_event list \<Rightarrow> MergeForm \<times> request list" where
  "merge_run evs = foldl merge_step (MergeForm_init, []) evs"

definition split_run :: "split_input form_event list \<Rightarrow> SplitForm \<times> request list" where
  "split_run evs = foldl split_step (SplitForm_init, []) evs"

definition download_run :: "string form_event list \<Rightarrow> DownloadForm \<times> request list" where
  "download_run evs = foldl download_step (DownloadForm_init, []) evs"

section \<open>Auxiliary definitions\<close>

text \<open>The open form is the one the navigation signal stands for (none for no signal).\<close>

definition synced :: "ui \<Rightarrow> bool" where
  "synced s = (selected s = (case forceTitle s of None \<Rightarrow> None | Some k \<Rightarrow> resolve k))"



text \<open>The form host and the parent agree on whether a form is open.\<close>

definition agree :: "ui \<Rightarrow> bool" where
  "agree s = ((selected s \<noteq> None) = formOpen s)"

text \<open>
  The invariants of a mounted form: exactly one request is pending while \<open>loading\<close> is set
  and none otherwise; result and error are both empty while a request is pending, and one
  of them is empty otherwise.
\<close>

definition upload_inv :: "UploadForm \<times> request list \<Rightarrow> bool" where
  "upload_inv c = (length (snd c) = (if loading (fst c) then 1 else 0)
     \<and> (if loading (fst c) then uuid (fst c) = [] \<and> err (fst c) = []
         else uuid (fst c) = [] \<or> err (fst c) = []))"

definition merge_inv :: "MergeForm \<times> request list \<Rightarrow> bool" where
  "merge_inv c = (length (snd c) = (if loading_m (fst c) then 1 else 0)
     \<and> (if loading_m (fst c) then uuid_m (fst c) = [] \<and> err_m (fst c) = []
         else uuid_m (fst c) = [] \<or> err_m (fst c) = []))"

definition split_inv :: "SplitForm \<times> request list \<Rightarrow> bool" where
  "split_inv c = (length (snd c) = (if loading_s (fst c) then 1 else 0)
     \<and> (if loading_s (fst c) then uuid_s (fst c) = [] \<and> err_s (fst c) = []
         else uuid_s (fst c) = [] \<or> err_s (fst c) = []))"

definition download_inv :: "DownloadForm \<times> request list \<Rightarrow> bool" where
  "download_inv c = (length (snd c) = (if loading_d (fst c) then 1 else 0)
     \<and> (if loading_d (fst c) then err_d (fst c) = [] else True))"

section \<open>Auxiliary lemmas\<close>

subsection \<open>Navigation\<close>

lemmas card_defs = card_DOWNLOAD_def card_UPLOAD_def card_MERGE_def card_SPLIT_def

lemmas nav_defs = select_def rerender_def handleNavigate_def useEffect_def
  onFormOpenChange_def openDirect_def openCard_def backClick_def back_fn_def

lemma truthy_simps [simp]: "truthy None = False" "truthy (Some k) = (k \<noteq> [])"
  by (simp_all add: truthy_def)

lemma resolve_simps:
  "resolve ''UPLOAD'' = Some card_UPLOAD" "resolve ''DOWNLOAD'' = Some card_DOWNLOAD"
  "resolve ''MERGE'' = Some card_MERGE" "resolve ''SPLIT'' = Some card_SPLIT"
  "resolve ''HOME'' = None" "resolve [] = None" "resolve ''FOO'' = None"
  by (simp_all add: resolve_def menuCards_def card_defs)

lemma find_title [simp]: "find (\<lambda>c. title c = k) menuCards = resolve k"
  by (simp add: resolve_def)

text \<open>The effect that runs after mounting finds no signal and no open form.\<close>

lemma mounted_ui_eq: "mounted_ui = initial"
  by (simp add: mounted_ui_def useEffect_def initial_def)

lemma select_forceTitle: "forceTitle (select k s) = (if k = ''HOME'' then None else Some k)"
  by (simp add: nav_defs split: option.splits)



lemma select_emits_at_most_one: "length (emitted (select k s)) \<le> Suc (length (emitted s))"
  by (simp add: nav_defs split: option.splits)


lemma viewkey_resolves: "k \<in> ViewKey \<Longrightarrow> k \<noteq> ''HOME'' \<Longrightarrow> resolve k \<noteq> None"
  by (auto simp: ViewKey_def resolve_simps)

lemma viewkey_nonempty: "k \<in> ViewKey \<Longrightarrow> k \<noteq> []"
  by (auto simp: ViewKey_def)

lemma select_synced: "synced s \<Longrightarrow> k \<in> ViewKey \<Longrightarrow> synced (select k s)"
  by (auto simp: synced_def nav_defs resolve_simps ViewKey_def split: option.splits)

lemma selects_append: "selects (ks @ [k]) s = select k (selects ks s)"
  by (induction ks arbitrary: s) simp_all

lemma selects_synced: "synced s \<Longrightarrow> set ks \<subseteq> ViewKey \<Longrightarrow> synced (selects ks s)"
  by (induction ks arbitrary: s) (simp_all add: select_synced)

lemma selects_forceTitle:
  "ks \<noteq> [] \<Longrightarrow> forceTitle (selects ks s) = (if last ks = ''HOME'' then None else Some (last ks))"
  by (induction ks arbitrary: s rule: rev_induct) (simp_all add: selects_append select_forceTitle)

lemma synced_initial: "synced mounted_ui"
  by (simp add: synced_def mounted_ui_eq initial_def)

lemma backClick_forceTitle: "forceTitle (backClick s) = forceTitle s"
  by (simp add: nav_defs)

lemma backClick_selected: "selected (backClick s) = None"
  by (simp add: nav_defs)

lemma select_same_signal: "forceTitle s = Some k \<Longrightarrow> k \<noteq> ''HOME'' \<Longrightarrow> select k s = s"
  by (simp add: nav_defs)

lemma select_funpow_same: "forceTitle s = Some k \<Longrightarrow> k \<noteq> ''HOME'' \<Longrightarrow> (select k ^^ n) s = s"
  by (induction n) (simp_all add: select_same_signal)

lemma select_other_key:
  "forceTitle s \<noteq> Some k' \<Longrightarrow> k' \<noteq> ''HOME'' \<Longrightarrow> k' \<noteq> [] \<Longrightarrow> resolve k' \<noteq> None
     \<Longrightarrow> selected (select k' s) = resolve k'"
  by (auto simp: nav_defs)

lemma select_home_selected: "selected s = None \<Longrightarrow> selected (select ''HOME'' s) = None"
  by (simp add: nav_defs)

text \<open>The page offers no card while a form is open.\<close>

lemma not_offered_with_form_open:
  "selected s \<noteq> None \<Longrightarrow> run (OpenDirect d # es) s = None"
  by auto

text \<open>
  Every offered event keeps the agreement, except a click on Home while the signal is
  already \<open>null\<close> and a form is open.
\<close>

lemma fire_keeps_agreement:
  assumes "agree s" and "offered e s"
    and "\<not> (e = Select ''HOME'' \<and> forceTitle s = None \<and> selected s \<noteq> None)"
  shows "agree (fire e s)"
proof (cases e)
  case (Select k)
  then have k: "k \<in> ViewKey" using assms(2) by simp
  show ?thesis
  proof (cases "k = ''HOME''")
    case True
    then show ?thesis using Select assms(1,3)
      by (auto simp: agree_def nav_defs split: option.splits)
  next
    case False
    then obtain c where "resolve k = Some c" using viewkey_resolves [OF k] by auto
    then show ?thesis using Select False assms(1) viewkey_nonempty [OF k]
      by (auto simp: agree_def nav_defs)
  qed
next
  case (OpenDirect c)
  then show ?thesis by (simp add: agree_def nav_defs)
next
  case Back
  then show ?thesis by (simp add: agree_def nav_defs)
qed

subsection \<open>Forms\<close>

lemma or_default_nonempty: "fb \<noteq> [] \<Longrightarrow> or_default d fb \<noteq> []"
  by (cases d) (simp_all add: or_default_def)

lemma foldl_invariant:
  assumes "P c" and "\<And>c e. P c \<Longrightarrow> P (f c e)"
  shows "P (foldl f c evs)"
  using assms(1) by (induction evs arbitrary: c) (simp_all add: assms(2))

lemma upload_step_inv: "upload_inv c \<Longrightarrow> upload_inv (upload_step c e)"
  by (cases c; cases e)
     (auto simp: upload_inv_def upload_step_def handleSubmit_def handleSubmit_settled_def
        setFile_def Let_def or_default_nonempty split: if_splits option.splits list.splits response.splits)

lemma merge_step_inv: "merge_inv c \<Longrightarrow> merge_inv (merge_step c e)"
proof (cases c; cases e)
  fix s q i assume "merge_inv c" "c = (s, q)" "e = Change i"
  then show ?thesis by (cases i) (auto simp: merge_inv_def merge_step_def)
next
  fix s q assume "merge_inv c" "c = (s, q)" "e = Submit"
  then show ?thesis
    by (auto simp: merge_inv_def merge_step_def submit_m_def Let_def split: if_splits option.splits)
next
  fix s q r assume "merge_inv c" "c = (s, q)" "e = Settle r"
  then show ?thesis
    by (auto simp: merge_inv_def merge_step_def submit_m_settled_def or_default_nonempty
        split: if_splits list.splits response.splits)
qed

lemma split_step_inv: "split_inv c \<Longrightarrow> split_inv (split_step c e)"
proof (cases c; cases e)
  fix s q i assume "split_inv c" "c = (s, q)" "e = Change i"
  then show ?thesis by (cases i) (auto simp: split_inv_def split_step_def)
next
  fix s q assume "split_inv c" "c = (s, q)" "e = Submit"
  then show ?thesis
    by (auto simp: split_inv_def split_step_def submit_s_def Let_def split: if_splits option.splits)
next
  fix s q r assume "split_inv c" "c = (s, q)" "e = Settle r"
  then show ?thesis
    by (auto simp: split_inv_def split_step_def submit_s_settled_def or_default_nonempty
        split: if_splits list.splits response.splits)
qed

lemma download_step_inv: "download_inv c \<Longrightarrow> download_inv (download_step c e)"
  by (cases c; cases e)
     (auto simp: download_inv_def download_step_def submit_d_def submit_d_settled_def
        setUuid_def Let_def split: if_splits option.splits list.splits response.splits)

lemma upload_run_inv: "upload_inv (upload_run evs)"
  unfolding upload_run_def
proof (rule foldl_invariant [where P = upload_inv])
  show "upload_inv (UploadForm_init, [])" by (simp add: upload_inv_def UploadForm_init_def)
qed (rule upload_step_inv)

lemma merge_run_inv: "merge_inv (merge_run evs)"
  unfolding merge_run_def
proof (rule foldl_invariant [where P = merge_inv])
  show "merge_inv (MergeForm_init, [])" by (simp add: merge_inv_def MergeForm_init_def)
qed (rule merge_step_inv)

lemma split_run_inv: "split_inv (split_run evs)"
  unfolding split_run_def
proof (rule foldl_invariant [where P = split_inv])
  show "split_inv (SplitForm_init, [])" by (simp add: split_inv_def SplitForm_init_def)
qed (rule split_step_inv)

lemma download_run_inv: "download_inv (download_run evs)"
  unfolding download_run_def
proof (rule foldl_invariant [where P = download_inv])
  show "download_inv (DownloadForm_init, [])" by (simp add: download_inv_def DownloadForm_init_def)
qed (rule download_step_inv)

lemma upload_run_snoc: "upload_run (evs @ [e]) = upload_step (upload_run evs) e"
  by (simp add: upload_run_def)

lemma merge_run_snoc: "merge_run (evs @ [e]) = merge_step (merge_run evs) e"
  by (simp add: merge_run_def)

lemma split_run_snoc: "split_run (evs @ [e]) = split_step (split_run evs) e"
  by (simp add: split_run_def)

lemma download_run_snoc: "download_run (evs @ [e]) = download_step (download_run evs) e"
  by (simp add: download_run_def)

lemma upload_submit_disabled: "loading (fst c) \<Longrightarrow> upload_step c Submit = c"
  by (cases c) (simp add: upload_step_def)

lemma merge_submit_disabled: "loading_m (fst c) \<Longrightarrow> merge_step c Submit = c"
  by (cases c) (simp add: merge_step_def)

lemma split_submit_disabled: "loading_s (fst c) \<Longrightarrow> split_step c Submit = c"
  by (cases c) (simp add: split_step_def)

lemma download_submit_disabled: "loading_d (fst c) \<Longrightarrow> download_step c Submit = c"
  by (cases c) (simp add: download_step_def)

lemmas shows_defs = upload_shows_result_def upload_shows_error_def merge_shows_result_def
  merge_shows_error_def split_shows_result_def split_shows_error_def
  download_shows_result_def download_shows_error_def

lemma upload_flight:
  "length (snd (upload_run evs)) = (if loading (fst (upload_run evs)) then 1 else 0)"
  using upload_run_inv [of evs] by (simp add: upload_inv_def)

lemma merge_flight:
  "length (snd (merge_run evs)) = (if loading_m (fst (merge_run evs)) then 1 else 0)"
  using merge_run_inv [of evs] by (simp add: merge_inv_def)

lemma split_flight:
  "length (snd (split_run evs)) = (if loading_s (fst (split_run evs)) then 1 else 0)"
  using split_run_inv [of evs] by (simp add: split_inv_def)

lemma download_flight:
  "length (snd (download_run evs)) = (if loading_d (fst (download_run evs)) then 1 else 0)"
  using download_run_inv [of evs] by (simp add: download_inv_def)

lemma upload_exclusive:
  "\<not> (upload_shows_result (fst (upload_run evs)) \<and> upload_shows_error (fst (upload_run evs)))"
  using upload_run_inv [of evs] by (auto simp: upload_inv_def shows_defs split: if_splits)

lemma merge_exclusive:
  "\<not> (merge_shows_result (fst (merge_run evs)) \<and> merge_shows_error (fst (merge_run evs)))"
  using merge_run_inv [of evs] by (auto simp: merge_inv_def shows_defs split: if_splits)

lemma split_exclusive:
  "\<not> (split_shows_result (fst (split_run evs)) \<and> split_shows_error (fst (split_run evs)))"
  using split_run_inv [of evs] by (auto simp: split_inv_def shows_defs split: if_splits)

lemma upload_clears:
  "snd (handleSubmit s) \<noteq> None \<Longrightarrow>
     \<not> upload_shows_result (fst (handleSubmit s)) \<and> \<not> upload_shows_error (fst (handleSubmit s))"
  by (auto simp: handleSubmit_def Let_def shows_defs split: option.splits)

lemma merge_clears:
  "snd (submit_m s) \<noteq> None \<Longrightarrow>
     \<not> merge_shows_result (fst (submit_m s)) \<and> \<not> merge_shows_error (fst (submit_m s))"
  by (auto simp: submit_m_def Let_def shows_defs split: option.splits)

lemma split_clears:
  "snd (submit_s s) \<noteq> None \<Longrightarrow>
     \<not> split_shows_result (fst (submit_s s)) \<and> \<not> split_shows_error (fst (submit_s s))"
  by (auto simp: submit_s_def Let_def shows_defs split: option.splits if_splits)

lemma download_clears:
  "snd (submit_d s) \<noteq> None \<Longrightarrow> \<not> download_shows_error (fst (submit_d s))"
  by (auto simp: submit_d_def Let_def shows_defs split: if_splits)

lemma upload_completes:
  assumes "loading (fst (upload_run evs))"
  shows "upload_shows_error (fst (upload_run (evs @ [Settle (Rejected d)])))
       \<and> \<not> upload_shows_result (fst (upload_run (evs @ [Settle (Rejected d)])))
       \<and> upload_shows_result (fst (upload_run (evs @ [Settle (Fulfilled u)]))) = (u \<noteq> [])
       \<and> \<not> upload_shows_error (fst (upload_run (evs @ [Settle (Fulfilled u)])))"
  using assms upload_run_inv [of evs]
  by (cases "upload_run evs")
     (auto simp: upload_run_snoc upload_inv_def upload_step_def handleSubmit_settled_def shows_defs
        or_default_nonempty split: list.splits)

lemma merge_completes:
  assumes "loading_m (fst (merge_run evs))"
  shows "merge_shows_error (fst (merge_run (evs @ [Settle (Rejected d)])))
       \<and> \<not> merge_shows_result (fst (merge_run (evs @ [Settle (Rejected d)])))
       \<and> merge_shows_result (fst (merge_run (evs @ [Settle (Fulfilled u)]))) = (u \<noteq> [])
       \<and> \<not> merge_shows_error (fst (merge_run (evs @ [Settle (Fulfilled u)])))"
  using assms merge_run_inv [of evs]
  by (cases "merge_run evs")
     (auto simp: merge_run_snoc merge_inv_def merge_step_def submit_m_settled_def shows_defs
        or_default_nonempty split: list.splits)

lemma split_completes:
  assumes "loading_s (fst (split_run evs))"
  shows "split_shows_error (fst (split_run (evs @ [Settle (Rejected d)])))
       \<and> \<not> split_shows_result (fst (split_run (evs @ [Settle (Rejected d)])))
       \<and> split_shows_result (fst (split_run (evs @ [Settle (Fulfilled u)]))) = (u \<noteq> [])
       \<and> \<not> split_shows_error (fst (split_run (evs @ [Settle (Fulfilled u)])))"
  using assms split_run_inv [of evs]
  by (cases "split_run evs")
     (auto simp: split_run_snoc split_inv_def split_step_def submit_s_settled_def shows_defs
        or_default_nonempty split: list.splits)

lemma download_completes:
  assumes "loading_d (fst (download_run evs))"
  shows "download_shows_error (fst (download_run (evs @ [Settle (Rejected d)])))
       \<and> \<not> download_shows_error (fst (download_run (evs @ [Settle (Fulfilled u)])))
       \<and> \<not> download_shows_result (fst (download_run (evs @ [Settle (Fulfilled u)])))"
  using assms download_run_inv [of evs]
  by (cases "download_run evs")
     (auto simp: download_run_snoc download_inv_def download_step_def submit_d_settled_def
        shows_defs or_default_nonempty split: list.splits)

lemmas form_defs = upload_run_def upload_step_def handleSubmit_def handleSubmit_settled_def
  setFile_def UploadForm_init_def merge_run_def merge_step_def submit_m_def submit_m_settled_def
  MergeForm_init_def split_run_def split_step_def submit_s_def submit_s_settled_def
  SplitForm_init_def download_run_def download_step_def submit_d_def submit_d_settled_def
  setUuid_def DownloadForm_init_def

section \<open>Navigation and synchronisation properties\<close>

text \<open>
  C1. The claimed invariant: after every event, \<open>selected\<close> is set exactly when \<open>formOpen\<close>
  is true. The code at the input "click the SPLIT card, then click Home in the navigation
  bar" (both offered by the page, starting from the mounted page): \<open>handleNavigate\<close> sets
  \<open>formOpen\<close> to false, \<open>forceTitle\<close> was \<open>null\<close> and stays \<open>null\<close>, so the effect does not
  run and \<open>selected\<close> keeps the SPLIT card. The form is still displayed while the parent
  believes it closed. Every other offered event keeps the two in agreement
  (\<open>fire_keeps_agreement\<close>).
\<close>

theorem direct_open_then_home_disagree:
  "map_option (\<lambda>s. (selected s \<noteq> None, formOpen s))
     (run [OpenDirect card_SPLIT, Select ''HOME''] mounted_ui) = Some (True, False)"
  by (simp add: mounted_ui_eq initial_def nav_defs menuCards_def ViewKey_def)

text \<open>
  C2. The scenario of the claim, on the code: opening the SPLIT card directly while there
  is no navigation signal gives \<open>selected = SPLIT\<close> with one "open" emission; the following
  \<open>select(HOME)\<close> leaves \<open>selected\<close> at the SPLIT card and emits nothing ("closed" is never
  emitted: the log still holds the single "open").
\<close>

theorem direct_open_then_home:
  "run [OpenDirect card_SPLIT] mounted_ui
     = Some \<lparr>formOpen = True, forceTitle = None, selected = Some card_SPLIT, emitted = [True]\<rparr>
   \<and> run [OpenDirect card_SPLIT, Select ''HOME''] mounted_ui
     = Some \<lparr>formOpen = False, forceTitle = None, selected = Some card_SPLIT, emitted = [True]\<rparr>"
  by (simp add: mounted_ui_eq initial_def nav_defs menuCards_def ViewKey_def)

text \<open>
  C3. For every finite list of \<open>select(k)\<close> calls with keys of \<open>ViewKey\<close>, starting from the
  mounted page: no form is open exactly when the list is empty or its last key is HOME;
  otherwise the open form is the card that the last key resolves to.
\<close>

theorem selects_settle:
  assumes "set ks \<subseteq> ViewKey"
  shows "(selected (selects ks mounted_ui) = None \<longleftrightarrow> ks = [] \<or> last ks = ''HOME'')
       \<and> (ks \<noteq> [] \<and> last ks \<noteq> ''HOME'' \<longrightarrow> selected (selects ks mounted_ui) = resolve (last ks))"
proof (cases "ks = []")
  case True
  then show ?thesis by (simp add: mounted_ui_eq initial_def)
next
  case False
  have sy: "synced (selects ks mounted_ui)"
    using assms by (simp add: selects_synced synced_initial)
  have ft: "forceTitle (selects ks mounted_ui)
      = (if last ks = ''HOME'' then None else Some (last ks))"
    using False by (rule selects_forceTitle)
  have lk: "last ks \<in> ViewKey" using False assms by auto
  show ?thesis
  proof (cases "last ks = ''HOME''")
    case True
    then show ?thesis using sy ft by (simp add: synced_def)
  next
    case h: False
    then have "selected (selects ks mounted_ui) = resolve (last ks)"
      using sy ft by (simp add: synced_def)
    then show ?thesis using h False viewkey_resolves [OF lk h] by simp
  qed
qed

theorem selects_settle_witness:
  "set [''UPLOAD'', ''HOME'', ''MERGE''] \<subseteq> ViewKey
   \<and> selected (selects [''UPLOAD'', ''HOME'', ''MERGE''] mounted_ui) = Some card_MERGE
   \<and> selected (selects [''UPLOAD'', ''HOME''] mounted_ui) = None"
proof -
  have a: "set [''UPLOAD'', ''HOME'', ''MERGE''] \<subseteq> ViewKey" by (simp add: ViewKey_def)
  have b: "set [''UPLOAD'', ''HOME''] \<subseteq> ViewKey" by (simp add: ViewKey_def)
  show ?thesis using a selects_settle [OF a] selects_settle [OF b] by (simp add: resolve_simps)
qed




text \<open>
  C5, as stated, fails: the empty string is a signal value other than \<open>null\<close> that resolves
  to no card, yet the effect tests the signal for truthiness, so with a form open it
  clears \<open>selected\<close> and emits "closed".
\<close>

theorem empty_key_closes_form:
  "forceTitle (select [] (select ''UPLOAD'' mounted_ui)) = Some []
   \<and> resolve [] = None
   \<and> \<not> (selected (select [] (select ''UPLOAD'' mounted_ui)) = selected (select ''UPLOAD'' mounted_ui)
        \<and> emitted (select [] (select ''UPLOAD'' mounted_ui)) = emitted (select ''UPLOAD'' mounted_ui))"
  by (simp add: mounted_ui_eq initial_def nav_defs resolve_simps)

text \<open>
  C5, amended. For every non-empty signal value that resolves to no card, the effect is the
  identity: \<open>selected\<close> is unchanged and nothing is emitted, whether the effect is run
  directly or through a render; and \<open>select(k)\<close> with such a key other than HOME leaves
  \<open>selected\<close>, \<open>formOpen\<close> and the emissions as they were. The functions are total, and the
  source reads no field of the missing card.
\<close>

theorem unknown_key_noop:
  assumes "k \<noteq> []" and "resolve k = None"
  shows "useEffect (s\<lparr>forceTitle := Some k\<rparr>) = s\<lparr>forceTitle := Some k\<rparr>
       \<and> rerender s (s\<lparr>forceTitle := Some k\<rparr>) = s\<lparr>forceTitle := Some k\<rparr>
       \<and> (k \<noteq> ''HOME'' \<longrightarrow> selected (select k s) = selected s \<and> emitted (select k s) = emitted s
             \<and> formOpen (select k s) = formOpen s)"
  using assms by (simp add: nav_defs)

theorem unknown_key_noop_witness:
  "''FOO'' \<noteq> [] \<and> resolve ''FOO'' = None
   \<and> select ''FOO'' (select ''UPLOAD'' mounted_ui)
       = \<lparr>formOpen = True, forceTitle = Some ''FOO'', selected = Some card_UPLOAD, emitted = [True]\<rparr>"
proof -
  have a: "''FOO'' \<noteq> []" by simp
  have b: "resolve ''FOO'' = None" by (simp add: resolve_simps)
  show ?thesis using unknown_key_noop [OF a b, of "select ''UPLOAD'' mounted_ui"]
    by (simp add: mounted_ui_eq initial_def nav_defs resolve_simps)
qed

text \<open>
  C6. For every state in which the page offers the cards and every card \<open>d\<close> of the menu,
  \<open>openDirect(d)\<close> opens \<open>d\<close>, the back button is then offered, and \<open>back()\<close> returns
  \<open>selected\<close> to exactly the value it had before. The cards are rendered only while
  \<open>selected\<close> is \<open>null\<close>, so these are all the states in which \<open>openDirect\<close> can be called.
\<close>

theorem open_back_round_trip:
  assumes "offered (OpenDirect d) s"
  shows "selected (openDirect d s) = Some d
       \<and> selected (backClick (openDirect d s)) = selected s
       \<and> map_option selected (run [OpenDirect d, Back] s) = Some (selected s)"
  using assms by (simp add: nav_defs)

theorem open_back_round_trip_witness:
  "offered (OpenDirect card_SPLIT) mounted_ui
   \<and> selected (openDirect card_SPLIT mounted_ui) = Some card_SPLIT
   \<and> map_option selected (run [OpenDirect card_SPLIT, Back] mounted_ui) = Some None"
proof -
  have a: "offered (OpenDirect card_SPLIT) mounted_ui"
    by (simp add: mounted_ui_eq initial_def menuCards_def)
  have b: "selected mounted_ui = None" by (simp add: mounted_ui_eq initial_def)
  show ?thesis using a b open_back_round_trip [OF a] by simp
qed

text \<open>
  C10. \<open>back()\<close> clears \<open>selected\<close> and leaves the navigation signal alone: after
  \<open>select(k)\<close>, \<open>k\<close> other than HOME, and \<open>back()\<close>, the signal still holds \<open>k\<close>; selecting
  the same \<open>k\<close> again, any number of times, changes nothing, so no form is reopened. A
  different key of \<open>ViewKey\<close> other than HOME then opens its form, and HOME clears the
  signal with no form open.
\<close>

theorem back_keeps_signal:
  assumes "k \<noteq> ''HOME''"
  shows "forceTitle (backClick (select k s)) = Some k
       \<and> selected (backClick (select k s)) = None
       \<and> select k (backClick (select k s)) = backClick (select k s)
       \<and> (select k ^^ n) (backClick (select k s)) = backClick (select k s)
       \<and> (k' \<noteq> k \<and> k' \<noteq> ''HOME'' \<and> k' \<in> ViewKey \<longrightarrow>
            selected (select k' (backClick (select k s))) = resolve k'
            \<and> resolve k' \<noteq> None)
       \<and> selected (select ''HOME'' (backClick (select k s))) = None
       \<and> forceTitle (select ''HOME'' (backClick (select k s))) = None"
proof -
  let ?b = "backClick (select k s)"
  have ft: "forceTitle ?b = Some k"
    using assms by (simp add: backClick_forceTitle select_forceTitle)
  have sel: "selected ?b = None" by (rule backClick_selected)
  have same: "select k ?b = ?b" using ft assms by (rule select_same_signal)
  have pow: "(select k ^^ n) ?b = ?b" using ft assms by (rule select_funpow_same)
  have other: "selected (select k' ?b) = resolve k' \<and> resolve k' \<noteq> None"
    if "k' \<noteq> k" "k' \<noteq> ''HOME''" "k' \<in> ViewKey"
  proof -
    have r: "resolve k' \<noteq> None" using that by (simp add: viewkey_resolves)
    have "forceTitle ?b \<noteq> Some k'" using ft that by simp
    then show ?thesis using r that select_other_key [of ?b k'] by (simp add: viewkey_nonempty)
  qed
  have home: "selected (select ''HOME'' ?b) = None" using sel by (rule select_home_selected)
  have hft: "forceTitle (select ''HOME'' ?b) = None" by (simp add: select_forceTitle)
  from ft sel same pow other home hft show ?thesis by blast
qed

theorem back_keeps_signal_witness:
  "''UPLOAD'' \<noteq> ''HOME''
   \<and> selected (select ''UPLOAD'' mounted_ui) = Some card_UPLOAD
   \<and> forceTitle (backClick (select ''UPLOAD'' mounted_ui)) = Some ''UPLOAD''
   \<and> selected (select ''UPLOAD'' (backClick (select ''UPLOAD'' mounted_ui))) = None
   \<and> selected (select ''MERGE'' (backClick (select ''UPLOAD'' mounted_ui))) = Some card_MERGE"
proof -
  have a: "''UPLOAD'' \<noteq> ''HOME''" by simp
  have b: "''MERGE'' \<noteq> ''UPLOAD'' \<and> ''MERGE'' \<noteq> ''HOME'' \<and> ''MERGE'' \<in> ViewKey"
    by (simp add: ViewKey_def)
  have c: "selected (select ''UPLOAD'' mounted_ui) = Some card_UPLOAD"
    by (simp add: mounted_ui_eq initial_def nav_defs resolve_simps)
  have d: "resolve ''MERGE'' = Some card_MERGE" by (simp add: resolve_simps)
  from back_keeps_signal [OF a, of mounted_ui 0 "''MERGE''"] a b c d
  show ?thesis by metis
qed

section \<open>Form properties\<close>

text \<open>
  C7. Submitting the upload form while no file is selected sets the error to
  "Selecione um PDF", leaves the result empty, sends no request and does not touch
  \<open>loading\<close>, so no request can settle and the \<open>catch\<close> branch is not reached. The same
  holds for the validation of the other three forms: a missing required input gives the
  form's own message and no request.
\<close>

theorem upload_without_file:
  "(file_u s = None \<longrightarrow>
      err (fst (handleSubmit s)) = ''Selecione um PDF'' \<and> uuid (fst (handleSubmit s)) = []
      \<and> loading (fst (handleSubmit s)) = loading s \<and> snd (handleSubmit s) = None
      \<and> (\<not> loading s \<longrightarrow> snd (upload_step (s, q) Submit) = q))
   \<and> (file1 m = None \<or> file2 m = None \<longrightarrow>
      err_m (fst (submit_m m)) = ''Selecione os dois PDFs'' \<and> snd (submit_m m) = None)
   \<and> (file_s p = None \<or> range_s p = [] \<longrightarrow>
      err_s (fst (submit_s p)) = ''Arquivo e intervalo obrigat'' @ CHR 0xF3 # ''rios''
      \<and> snd (submit_s p) = None)
   \<and> (uuid_d d = [] \<longrightarrow>
      err_d (fst (submit_d d)) = ''Informe o UUID'' \<and> snd (submit_d d) = None)"
proof -
  have "file_u s = None \<Longrightarrow>
      err (fst (handleSubmit s)) = ''Selecione um PDF'' \<and> uuid (fst (handleSubmit s)) = []
      \<and> loading (fst (handleSubmit s)) = loading s \<and> snd (handleSubmit s) = None
      \<and> (\<not> loading s \<longrightarrow> snd (upload_step (s, q) Submit) = q)"
    by (simp add: handleSubmit_def upload_step_def)
  moreover have "file1 m = None \<or> file2 m = None \<Longrightarrow>
      err_m (fst (submit_m m)) = ''Selecione os dois PDFs'' \<and> snd (submit_m m) = None"
    by (auto simp: submit_m_def Let_def split: option.splits)
  moreover have "file_s p = None \<or> range_s p = [] \<Longrightarrow>
      err_s (fst (submit_s p)) = ''Arquivo e intervalo obrigat'' @ CHR 0xF3 # ''rios''
      \<and> snd (submit_s p) = None"
    by (auto simp: submit_s_def Let_def split: option.splits)
  moreover have "uuid_d d = [] \<Longrightarrow>
      err_d (fst (submit_d d)) = ''Informe o UUID'' \<and> snd (submit_d d) = None"
    by (simp add: submit_d_def)
  ultimately show ?thesis by blast
qed

theorem upload_without_file_witness:
  "file_u UploadForm_init = None
   \<and> upload_run [Submit]
       = (\<lparr>file_u = None, uuid = [], err = ''Selecione um PDF'', loading = False\<rparr>, [])
   \<and> snd (submit_m MergeForm_init) = None
   \<and> snd (submit_s SplitForm_init) = None
   \<and> snd (submit_d DownloadForm_init) = None"
proof -
  have a: "file_u UploadForm_init = None \<and> \<not> loading UploadForm_init
       \<and> uuid UploadForm_init = [] \<and> file1 MergeForm_init = None
       \<and> file_s SplitForm_init = None \<and> uuid_d DownloadForm_init = []"
    by (simp add: UploadForm_init_def MergeForm_init_def SplitForm_init_def DownloadForm_init_def)
  have b: "upload_run [Submit] = (fst (handleSubmit UploadForm_init), snd (upload_step (UploadForm_init, []) Submit))"
    using a by (simp add: upload_run_def upload_step_def)
  have c: "fst (handleSubmit UploadForm_init) = \<lparr>file_u = file_u (fst (handleSubmit UploadForm_init)),
      uuid = uuid (fst (handleSubmit UploadForm_init)), err = err (fst (handleSubmit UploadForm_init)),
      loading = loading (fst (handleSubmit UploadForm_init))\<rparr>" by simp
  have d: "file_u (fst (handleSubmit UploadForm_init)) = None"
    by (simp add: handleSubmit_def UploadForm_init_def)
  from upload_without_file [of UploadForm_init "[]" MergeForm_init SplitForm_init DownloadForm_init] a
  have e: "err (fst (handleSubmit UploadForm_init)) = ''Selecione um PDF''
      \<and> uuid (fst (handleSubmit UploadForm_init)) = []
      \<and> loading (fst (handleSubmit UploadForm_init)) = False
      \<and> snd (upload_step (UploadForm_init, []) Submit) = []
      \<and> snd (submit_m MergeForm_init) = None
      \<and> snd (submit_s SplitForm_init) = None
      \<and> snd (submit_d DownloadForm_init) = None" by simp
  show ?thesis using a b c d e by simp
qed

text \<open>
  C8. In a mounted form, after any list of events, at most one request is pending; and
  while \<open>loading\<close> is true (the submit button is disabled) a further submit event changes
  nothing and sends no request. This holds for each of the four forms.
\<close>

theorem single_flight:
  "length (snd (upload_run eu)) \<le> 1
   \<and> (loading (fst (upload_run eu)) \<longrightarrow> upload_run (eu @ [Submit]) = upload_run eu)
   \<and> length (snd (merge_run em)) \<le> 1
   \<and> (loading_m (fst (merge_run em)) \<longrightarrow> merge_run (em @ [Submit]) = merge_run em)
   \<and> length (snd (split_run es)) \<le> 1
   \<and> (loading_s (fst (split_run es)) \<longrightarrow> split_run (es @ [Submit]) = split_run es)
   \<and> length (snd (download_run ed)) \<le> 1
   \<and> (loading_d (fst (download_run ed)) \<longrightarrow> download_run (ed @ [Submit]) = download_run ed)"
  by (simp add: upload_flight merge_flight split_flight download_flight
      upload_run_snoc merge_run_snoc split_run_snoc download_run_snoc
      upload_submit_disabled merge_submit_disabled split_submit_disabled download_submit_disabled)

theorem single_flight_witness:
  "loading (fst (upload_run [Change (Some (File ''a.pdf'')), Submit]))
   \<and> snd (upload_run ([Change (Some (File ''a.pdf'')), Submit] @ [Submit]))
       = [Post_upload (File ''a.pdf'')]
   \<and> loading_m (fst (merge_run [Change (SetFile1 (Some (File ''a.pdf''))),
         Change (SetFile2 (Some (File ''b.pdf''))), Submit]))
   \<and> snd (merge_run ([Change (SetFile1 (Some (File ''a.pdf''))),
         Change (SetFile2 (Some (File ''b.pdf''))), Submit] @ [Submit]))
       = [Post_merge (File ''a.pdf'') (File ''b.pdf'')]
   \<and> loading_s (fst (split_run [Change (SetFile (Some (File ''a.pdf''))),
         Change (SetRange ''1-5''), Submit]))
   \<and> snd (split_run ([Change (SetFile (Some (File ''a.pdf''))),
         Change (SetRange ''1-5''), Submit] @ [Submit]))
       = [Post_extract (File ''a.pdf'') ''1-5'']
   \<and> loading_d (fst (download_run [Change ''abc'', Submit]))
   \<and> snd (download_run ([Change ''abc'', Submit] @ [Submit])) = [Get_download ''abc'']"
proof -
  have u: "loading (fst (upload_run [Change (Some (File ''a.pdf'')), Submit]))
      \<and> snd (upload_run [Change (Some (File ''a.pdf'')), Submit]) = [Post_upload (File ''a.pdf'')]"
    by (simp add: form_defs)
  have m: "loading_m (fst (merge_run [Change (SetFile1 (Some (File ''a.pdf''))),
         Change (SetFile2 (Some (File ''b.pdf''))), Submit]))
      \<and> snd (merge_run [Change (SetFile1 (Some (File ''a.pdf''))),
         Change (SetFile2 (Some (File ''b.pdf''))), Submit])
        = [Post_merge (File ''a.pdf'') (File ''b.pdf'')]"
    by (simp add: form_defs)
  have s: "loading_s (fst (split_run [Change (SetFile (Some (File ''a.pdf''))),
         Change (SetRange ''1-5''), Submit]))
      \<and> snd (split_run [Change (SetFile (Some (File ''a.pdf''))),
         Change (SetRange ''1-5''), Submit]) = [Post_extract (File ''a.pdf'') ''1-5'']"
    by (simp add: form_defs)
  have d: "loading_d (fst (download_run [Change ''abc'', Submit]))
      \<and> snd (download_run [Change ''abc'', Submit]) = [Get_download ''abc'']"
    by (simp add: form_defs)
  from single_flight [of "[Change (Some (File ''a.pdf'')), Submit]"
      "[Change (SetFile1 (Some (File ''a.pdf''))), Change (SetFile2 (Some (File ''b.pdf''))), Submit]"
      "[Change (SetFile (Some (File ''a.pdf''))), Change (SetRange ''1-5''), Submit]"
      "[Change ''abc'', Submit]"]
  show ?thesis using u m s d by simp
qed

text \<open>
  C9, as stated, fails: when a download completes successfully, the download form shows
  neither a result nor an error, so it is not the case that exactly one of the two is
  shown on completion.
\<close>

theorem download_success_shows_neither:
  "snd (download_run [Change ''abc'', Submit]) = [Get_download ''abc'']
   \<and> snd (download_run [Change ''abc'', Submit, Settle (Fulfilled ''pdf'')]) = []
   \<and> \<not> (download_shows_result (fst (download_run [Change ''abc'', Submit, Settle (Fulfilled ''pdf'')]))
        \<noteq> download_shows_error (fst (download_run [Change ''abc'', Submit, Settle (Fulfilled ''pdf'')])))"
  by (simp add: form_defs shows_defs)

text \<open>
  C9, amended. In each of the four forms, after any list of events, result and error are
  never both shown; a submission that sends a request has cleared both before; when the
  pending request is rejected, the error and only the error is shown; when it is
  fulfilled, no error is shown, the upload, merge and split forms show the result exactly
  when the returned identifier is not empty, and the download form shows nothing.
\<close>

theorem result_error_exclusive:
  "\<not> (upload_shows_result (fst (upload_run eu)) \<and> upload_shows_error (fst (upload_run eu)))
   \<and> \<not> (merge_shows_result (fst (merge_run em)) \<and> merge_shows_error (fst (merge_run em)))
   \<and> \<not> (split_shows_result (fst (split_run es)) \<and> split_shows_error (fst (split_run es)))
   \<and> \<not> (download_shows_result (fst (download_run ed)) \<and> download_shows_error (fst (download_run ed)))
   \<and> (snd (handleSubmit su) \<noteq> None \<longrightarrow>
        \<not> upload_shows_result (fst (handleSubmit su)) \<and> \<not> upload_shows_error (fst (handleSubmit su)))
   \<and> (snd (submit_m sm) \<noteq> None \<longrightarrow>
        \<not> merge_shows_result (fst (submit_m sm)) \<and> \<not> merge_shows_error (fst (submit_m sm)))
   \<and> (snd (submit_s ss) \<noteq> None \<longrightarrow>
        \<not> split_shows_result (fst (submit_s ss)) \<and> \<not> split_shows_error (fst (submit_s ss)))
   \<and> (snd (submit_d sd) \<noteq> None \<longrightarrow>
        \<not> download_shows_result (fst (submit_d sd)) \<and> \<not> download_shows_error (fst (submit_d sd)))
   \<and> (loading (fst (upload_run eu)) \<longrightarrow>
        upload_shows_error (fst (upload_run (eu @ [Settle (Rejected d)])))
        \<and> \<not> upload_shows_result (fst (upload_run (eu @ [Settle (Rejected d)])))
        \<and> upload_shows_result (fst (upload_run (eu @ [Settle (Fulfilled u)]))) = (u \<noteq> [])
        \<and> \<not> upload_shows_error (fst (upload_run (eu @ [Settle (Fulfilled u)]))))
   \<and> (loading_m (fst (merge_run em)) \<longrightarrow>
        merge_shows_error (fst (merge_run (em @ [Settle (Rejected d)])))
        \<and> \<not> merge_shows_result (fst (merge_run (em @ [Settle (Rejected d)])))
        \<and> merge_shows_result (fst (merge_run (em @ [Settle (Fulfilled u)]))) = (u \<noteq> [])
        \<and> \<not> merge_shows_error (fst (merge_run (em @ [Settle (Fulfilled u)]))))
   \<and> (loading_s (fst (split_run es)) \<longrightarrow>
        split_shows_error (fst (split_run (es @ [Settle (Rejected d)])))
        \<and> \<not> split_shows_result (fst (split_run (es @ [Settle (Rejected d)])))
        \<and> split_shows_result (fst (split_run (es @ [Settle (Fulfilled u)]))) = (u \<noteq> [])
        \<and> \<not> split_shows_error (fst (split_run (es @ [Settle (Fulfilled u)]))))
   \<and> (loading_d (fst (download_run ed)) \<longrightarrow>
        download_shows_error (fst (download_run (ed @ [Settle (Rejected d)])))
        \<and> \<not> download_shows_error (fst (download_run (ed @ [Settle (Fulfilled u)])))
        \<and> \<not> download_shows_result (fst (download_run (ed @ [Settle (Fulfilled u)]))))"
proof -
  have "snd (submit_d sd) \<noteq> None \<Longrightarrow>
        \<not> download_shows_result (fst (submit_d sd)) \<and> \<not> download_shows_error (fst (submit_d sd))"
    using download_clears [of sd] by (simp add: download_shows_result_def)
  moreover have "\<not> (download_shows_result (fst (download_run ed)) \<and> download_shows_error (fst (download_run ed)))"
    by (simp add: download_shows_result_def)
  ultimately show ?thesis
    using upload_exclusive [of eu] merge_exclusive [of em] split_exclusive [of es]
      upload_clears [of su] merge_clears [of sm] split_clears [of ss]
      upload_completes [of eu d u] merge_completes [of em d u] split_completes [of es d u]
      download_completes [of ed d u]
    by blast
qed

theorem result_error_exclusive_witness:
  "snd (handleSubmit (fst (upload_run [Change (Some (File ''a.pdf''))]))) \<noteq> None
   \<and> loading (fst (upload_run [Change (Some (File ''a.pdf'')), Submit]))
   \<and> upload_shows_result (fst (upload_run ([Change (Some (File ''a.pdf'')), Submit] @ [Settle (Fulfilled ''id-1'')])))
   \<and> \<not> upload_shows_error (fst (upload_run ([Change (Some (File ''a.pdf'')), Submit] @ [Settle (Fulfilled ''id-1'')])))
   \<and> upload_shows_error (fst (upload_run ([Change (Some (File ''a.pdf'')), Submit] @ [Settle (Rejected None)])))
   \<and> snd (submit_m (fst (merge_run [Change (SetFile1 (Some (File ''a.pdf''))),
         Change (SetFile2 (Some (File ''b.pdf'')))]))) \<noteq> None
   \<and> loading_m (fst (merge_run [Change (SetFile1 (Some (File ''a.pdf''))),
         Change (SetFile2 (Some (File ''b.pdf''))), Submit]))
   \<and> snd (submit_s (fst (split_run [Change (SetFile (Some (File ''a.pdf''))),
         Change (SetRange ''1-5'')]))) \<noteq> None
   \<and> loading_s (fst (split_run [Change (SetFile (Some (File ''a.pdf''))),
         Change (SetRange ''1-5''), Submit]))
   \<and> snd (submit_d (fst (download_run [Change ''abc'']))) \<noteq> None
   \<and> loading_d (fst (download_run [Change ''abc'', Submit]))
   \<and> \<not> download_shows_error (fst (download_run ([Change ''abc'', Submit] @ [Settle (Fulfilled ''id-1'')])))"
proof -
  have a: "snd (handleSubmit (fst (upload_run [Change (Some (File ''a.pdf''))]))) \<noteq> None
      \<and> loading (fst (upload_run [Change (Some (File ''a.pdf'')), Submit]))"
    by (simp add: form_defs)
  have b: "snd (submit_m (fst (merge_run [Change (SetFile1 (Some (File ''a.pdf''))),
         Change (SetFile2 (Some (File ''b.pdf'')))]))) \<noteq> None
      \<and> loading_m (fst (merge_run [Change (SetFile1 (Some (File ''a.pdf''))),
         Change (SetFile2 (Some (File ''b.pdf''))), Submit]))"
    by (simp add: form_defs)
  have c: "snd (submit_s (fst (split_run [Change (SetFile (Some (File ''a.pdf''))),
         Change (SetRange ''1-5'')]))) \<noteq> None
      \<and> loading_s (fst (split_run [Change (SetFile (Some (File ''a.pdf''))),
         Change (SetRange ''1-5''), Submit]))"
    by (simp add: form_defs)
  have d: "snd (submit_d (fst (download_run [Change ''abc'']))) \<noteq> None
      \<and> loading_d (fst (download_run [Change ''abc'', Submit]))"
    by (simp add: form_defs)
  have e: "''id-1'' \<noteq> []" by simp
  from result_error_exclusive [of "[Change (Some (File ''a.pdf'')), Submit]"
      "[Change (SetFile1 (Some (File ''a.pdf''))), Change (SetFile2 (Some (File ''b.pdf''))), Submit]"
      "[Change (SetFile (Some (File ''a.pdf''))), Change (SetRange ''1-5''), Submit]"
      "[Change ''abc'', Submit]"
      "fst (upload_run [Change (Some (File ''a.pdf''))])"
      "fst (merge_run [Change (SetFile1 (Some (File ''a.pdf''))), Change (SetFile2 (Some (File ''b.pdf'')))])"
      "fst (split_run [Change (SetFile (Some (File ''a.pdf''))), Change (SetRange ''1-5'')])"
      "fst (download_run [Change ''abc''])" None "''id-1''"]
  show ?thesis using a b c d e by simp
qed

end
